theory Spec2Isabelle
  imports Complex_Main "HOL-Library.Word" "HOL-Library.Sublist"
begin

section \<open>Texts and byte strings\<close>

text \<open>
  Python's \<open>bytes\<close> is a sequence of 8-bit values and \<open>str\<close> a sequence of code
  points. \<open>AnyStr\<close>, the argument type of every \<open>send\<close>, is one or the other.
\<close>

type_synonym byte = "8 word"
type_synonym bytes = "byte list"
type_synonym str = "nat list"

datatype anystr = Str str | Bin bytes

definition text_of :: "string \<Rightarrow> str" where
  \<comment> \<open>an ASCII literal of the source as a text\<close>
  "text_of s = map of_char s"

subsection \<open>UTF-8\<close>

definition utf8_encode_cp :: "nat \<Rightarrow> bytes" where
  "utf8_encode_cp c =
     (if c < 0x80 then [of_nat c]
      else if c < 0x800 then [of_nat (0xC0 + c div 64), of_nat (0x80 + c mod 64)]
      else if c < 0x10000 then
        [of_nat (0xE0 + c div 4096), of_nat (0x80 + c div 64 mod 64), of_nat (0x80 + c mod 64)]
      else
        [of_nat (0xF0 + c div 262144), of_nat (0x80 + c div 4096 mod 64),
         of_nat (0x80 + c div 64 mod 64), of_nat (0x80 + c mod 64)])"

definition utf8_encode :: "str \<Rightarrow> bytes" where
  "utf8_encode t = concat (map utf8_encode_cp t)"

definition is_cont :: "byte \<Rightarrow> bool" where
  \<comment> \<open>a continuation byte, \<open>10xxxxxx\<close>\<close>
  "is_cont b = (0x80 \<le> unat b \<and> unat b < 0xC0)"

definition scalar :: "nat \<Rightarrow> bool" where
  \<comment> \<open>a Unicode scalar value: a code point that is not a surrogate\<close>
  "scalar c = (c < 0x110000 \<and> \<not> (0xD800 \<le> c \<and> c < 0xE000))"

fun seq2 :: "byte \<Rightarrow> bytes \<Rightarrow> nat option" where
  "seq2 b (b1 # bs) =
     (let c = (unat b - 0xC0) * 64 + (unat b1 - 0x80)
      in if 0xC0 \<le> unat b \<and> unat b < 0xE0 \<and> is_cont b1 \<and> 0x80 \<le> c then Some c else None)"
| "seq2 b [] = None"

fun seq3 :: "byte \<Rightarrow> bytes \<Rightarrow> nat option" where
  "seq3 b (b1 # b2 # bs) =
     (let c = (unat b - 0xE0) * 4096 + (unat b1 - 0x80) * 64 + (unat b2 - 0x80)
      in if 0xE0 \<le> unat b \<and> unat b < 0xF0 \<and> is_cont b1 \<and> is_cont b2 \<and> 0x800 \<le> c \<and> scalar c
         then Some c else None)"
| "seq3 b bs = None"

fun seq4 :: "byte \<Rightarrow> bytes \<Rightarrow> nat option" where
  "seq4 b (b1 # b2 # b3 # bs) =
     (let c = (unat b - 0xF0) * 262144 + (unat b1 - 0x80) * 4096 + (unat b2 - 0x80) * 64
              + (unat b3 - 0x80)
      in if 0xF0 \<le> unat b \<and> unat b < 0xF8 \<and> is_cont b1 \<and> is_cont b2 \<and> is_cont b3
            \<and> 0x10000 \<le> c \<and> scalar c
         then Some c else None)"
| "seq4 b bs = None"

text \<open>
  A byte string is valid UTF-8 when it splits into well-formed sequences: shortest form
  only, no surrogate, nothing above U+10FFFF.
\<close>

fun utf8_valid :: "bytes \<Rightarrow> bool" where
  "utf8_valid [] = True"
| "utf8_valid (b # bs) =
     (if unat b < 0x80 then utf8_valid bs
      else if seq2 b bs \<noteq> None then utf8_valid (drop 1 bs)
      else if seq3 b bs \<noteq> None then utf8_valid (drop 2 bs)
      else if seq4 b bs \<noteq> None then utf8_valid (drop 3 bs)
      else False)"

text \<open>
  The decoder. Where no well-formed sequence starts it puts U+FFFD for the offending
  byte and goes on with the next one, so it returns a text for every byte string.
\<close>

fun utf8_decode :: "bytes \<Rightarrow> str" where
  "utf8_decode [] = []"
| "utf8_decode (b # bs) =
     (if unat b < 0x80 then unat b # utf8_decode bs
      else case seq2 b bs of Some c \<Rightarrow> c # utf8_decode (drop 1 bs)
      | None \<Rightarrow> (case seq3 b bs of Some c \<Rightarrow> c # utf8_decode (drop 2 bs)
      | None \<Rightarrow> (case seq4 b bs of Some c \<Rightarrow> c # utf8_decode (drop 3 bs)
      | None \<Rightarrow> 0xFFFD # utf8_decode bs)))"


subsection \<open>The Byte Converter\<close>

text \<open>
  The module \<open>utils\<close>, which holds \<open>to_bytes\<close> and \<open>to_str\<close>, is not among the
  sources, so both follow section 4.1 of the specification. Of the two treatments of
  malformed input that the specification allows, the model takes replacement
  (\<open>utf8_decode\<close> above), which makes \<open>to_str\<close> total. On binary input with a
  terminator the specification says two things: section 4.1 that the terminator is
  appended, section 4.4 that binary input is passed through with no terminator added. The
  source settles it: the docstring of \<open>DuplicateStdoutPopen.send\<close>, whose body is
  \<open>to_bytes(s, '\n')\<close>, says that bytes are passed on directly.
\<close>

definition to_str :: "anystr \<Rightarrow> str" where
  \<comment> \<open>Modelled from the spec: \<open>to_str\<close> of the absent module \<open>utils\<close>: binary input is
      decoded as UTF-8, text input is passed through unchanged.\<close>
  "to_str v = (case v of Bin b \<Rightarrow> utf8_decode b | Str t \<Rightarrow> t)"

definition to_bytes :: "anystr \<Rightarrow> anystr option \<Rightarrow> bytes" where
  \<comment> \<open>Modelled from the spec: \<open>to_bytes\<close> of the absent module \<open>utils\<close>: text is encoded
      as UTF-8 and a terminator that is supplied is appended to it; binary input is
      passed through unmodified, with no terminator added.\<close>
  "to_bytes v terminator =
     (case v of
        Bin b \<Rightarrow> b
      | Str t \<Rightarrow>
          utf8_encode t
          @ (case terminator of
               None \<Rightarrow> []
             | Some e \<Rightarrow> (case e of Str t' \<Rightarrow> utf8_encode t' | Bin b \<Rightarrow> b)))"

section \<open>Python text operations used by the logging loop\<close>

definition py_isspace :: "nat \<Rightarrow> bool" where
  \<comment> \<open>the code points that \<open>str.strip()\<close> removes\<close>
  "py_isspace c =
     (c \<in> {9, 10, 11, 12, 13, 28, 29, 30, 31, 32, 133, 160, 5760, 8232, 8233, 8239, 8287, 12288}
      \<or> (8192 \<le> c \<and> c \<le> 8202))"

definition py_strip :: "str \<Rightarrow> str" where
  "py_strip t = rev (dropWhile py_isspace (rev (dropWhile py_isspace t)))"

definition py_replace :: "nat \<Rightarrow> nat \<Rightarrow> str \<Rightarrow> str" where
  \<comment> \<open>\<open>t.replace(old, new)\<close> for one-character \<open>old\<close> and \<open>new\<close>\<close>
  "py_replace old new t = map (\<lambda>c. if c = old then new else c) t"

fun py_split :: "nat \<Rightarrow> str \<Rightarrow> str list" where
  \<comment> \<open>\<open>t.split(sep)\<close> for a one-character separator\<close>
  "py_split sep [] = [[]]"
| "py_split sep (c # cs) =
     (if c = sep then [] # py_split sep cs
      else case py_split sep cs of l # ls \<Rightarrow> (c # l) # ls | [] \<Rightarrow> [[c]])"


fun str_nat :: "nat \<Rightarrow> str" where
  \<comment> \<open>the decimal digits of a natural number\<close>
  "str_nat n = (if n < 10 then [48 + n] else str_nat (n div 10) @ [48 + n mod 10])"

declare str_nat.simps [simp del]

definition str_int :: "int \<Rightarrow> str" where
  \<comment> \<open>\<open>str(i)\<close>, as an f-string renders an integer\<close>
  "str_int i = (if i < 0 then 45 # str_nat (nat (- i)) else str_nat (nat i))"

section \<open>Exceptions, files and the logging sink\<close>

datatype error =
    OSError int    \<comment> \<open>with its \<open>errno\<close>, \<open>err.args[0]\<close>\<close>
  | TIMEOUT        \<comment> \<open>\<open>pexpect.TIMEOUT\<close>\<close>
  | EOF            \<comment> \<open>\<open>pexpect.EOF\<close>\<close>
  | ValueError
  | NotImplementedError
  | UnicodeEncodeError

definition EIO :: int where "EIO = 5"
definition EBADF :: int where "EBADF = 9"

text \<open>
  A binary file object. Writing to or flushing a closed file raises \<open>ValueError\<close>;
  closing marks the object closed whether or not the operating system reports a failure,
  which \<open>close_error\<close> holds.
\<close>

record binary_io =
  fileno :: int
  closed :: bool
  written :: bytes
  close_error :: "error option"

definition io_write :: "binary_io \<Rightarrow> bytes \<Rightarrow> error + int \<times> binary_io" where
  "io_write f b =
     (if closed f then Inl ValueError
      else Inr (int (length b), f\<lparr>written := written f @ b\<rparr>))"

definition io_flush :: "binary_io \<Rightarrow> error + binary_io" where
  "io_flush f = (if closed f then Inl ValueError else Inr f)"

definition io_close :: "binary_io \<Rightarrow> error option \<times> binary_io" where
  "io_close f = (if closed f then (None, f) else (close_error f, f\<lparr>closed := True\<rparr>))"

datatype level = DEBUG | INFO | WARNING | ERROR

type_synonym log_record = "level \<times> str"

definition logging_info :: "str \<Rightarrow> log_record list \<Rightarrow> log_record list" where
  "logging_info msg sink = sink @ [(INFO, msg)]"


section \<open>PexpectProcess\<close>

text \<open>
  \<open>PexpectProcess\<close> extends pexpect's \<open>fdspawn\<close>. The fields \<open>p_count\<close>, \<open>p_total\<close>,
  \<open>p_source\<close>, \<open>p_fr\<close> and \<open>p_fw\<close> are the attributes \<open>_count\<close>, \<open>_total\<close>,
  \<open>source\<close>, \<open>_fr\<close> and \<open>_fw\<close>; \<open>child_fd\<close>, \<open>p_timeout\<close> and \<open>use_poll\<close> are the
  attributes \<open>child_fd\<close>, \<open>timeout\<close> and \<open>use_poll\<close> that the base class sets. The base
  class is taken in its default configuration, without an encoding: it sends and reads
  bytes, its coders are the identity, and it has no log file of its own.
\<close>

record pexpect_process =
  p_count :: int
  p_total :: int
  p_source :: "str option"
  child_fd :: int
  p_timeout :: "rat option"
  use_poll :: bool
  p_fr :: binary_io
  p_fw :: binary_io

record spawn_kwargs =
  kw_timeout :: "rat option"
  kw_use_poll :: bool

definition PexpectProcess_init ::
  "binary_io \<Rightarrow> binary_io \<Rightarrow> int \<Rightarrow> int \<Rightarrow> spawn_kwargs \<Rightarrow> pexpect_process" where
  "PexpectProcess_init pexpect_fr pexpect_fw count total' kwargs =
     \<lparr> p_count = count,
       p_total = total',
       p_source = (if total' > 1 then Some (text_of ''dut-'' @ str_int count) else None),
       child_fd = fileno pexpect_fr,
       p_timeout = kw_timeout kwargs,
       use_poll = kw_use_poll kwargs,
       p_fr = pexpect_fr,
       p_fw = pexpect_fw \<rparr>"

definition coerce_send_string :: "anystr \<Rightarrow> error + bytes" where
  \<comment> \<open>pexpect's \<open>_coerce_send_string\<close> without an encoding: text becomes bytes by
      \<open>s.encode('utf-8')\<close>, which raises \<open>UnicodeEncodeError\<close> on a code point that is
      not a scalar value (a lone surrogate); bytes are returned as they are\<close>
  "coerce_send_string s =
     (case s of
        Str t \<Rightarrow> if list_all scalar t then Inr (utf8_encode t) else Inl UnicodeEncodeError
      | Bin b \<Rightarrow> Inr b)"

definition tag_line :: "str option \<Rightarrow> str \<Rightarrow> str" where
  \<comment> \<open>\<open>if self.source: line = f'[{self.source}]' + line\<close>\<close>
  "tag_line source line =
     (case source of
        None \<Rightarrow> line
      | Some src \<Rightarrow> if src = [] then line else text_of ''['' @ src @ text_of '']'' @ line)"

fun log_lines :: "str option \<Rightarrow> str list \<Rightarrow> log_record list \<Rightarrow> log_record list" where
  \<comment> \<open>the \<open>for line in ...\<close> loop of \<open>send\<close>\<close>
  "log_lines source [] sink = sink"
| "log_lines source (line # lines) sink =
     (if py_strip line \<noteq> []
      then log_lines source lines (logging_info (tag_line source line) sink)
      else log_lines source lines sink)"

definition send ::
  "pexpect_process \<Rightarrow> anystr \<Rightarrow> log_record list
     \<Rightarrow> (error + int) \<times> pexpect_process \<times> log_record list" where
  \<comment> \<open>the coercion of the first line is outside the \<open>try\<close>: what it raises leaves
      \<open>send\<close> before anything is logged or written\<close>
  "send self s sink =
     (case coerce_send_string s of
        Inl e \<Rightarrow> (Inl e, self, sink)
      | Inr s' \<Rightarrow>
          (let sink' = log_lines (p_source self)
                         (py_split 10 (py_replace 13 10 (to_str (Bin s')))) sink;
               b = s'
           in case io_write (p_fw self) b of
                Inl e \<Rightarrow> if e = ValueError then (Inr 0, self, sink') else (Inl e, self, sink')
              | Inr (n, fw') \<Rightarrow>
                  (case io_flush fw' of
                     Inl e \<Rightarrow> if e = ValueError then (Inr 0, self\<lparr>p_fw := fw'\<rparr>, sink')
                              else (Inl e, self\<lparr>p_fw := fw'\<rparr>, sink')
                   | Inr fw'' \<Rightarrow> (Inr n, self\<lparr>p_fw := fw''\<rparr>, sink'))))"

definition pexpect_write ::
  "pexpect_process \<Rightarrow> anystr \<Rightarrow> log_record list
     \<Rightarrow> (error + unit) \<times> pexpect_process \<times> log_record list" where
  \<comment> \<open>\<open>PexpectProcess.write\<close>: \<open>send\<close> with its result dropped\<close>
  "pexpect_write self s sink =
     (case send self s sink of (r, self', sink') \<Rightarrow> (map_sum id (\<lambda>_. ()) r, self', sink'))"

definition terminate :: "pexpect_process \<Rightarrow> bool \<Rightarrow> pexpect_process" where
  \<comment> \<open>the bare \<open>except\<close> swallows a failure of the first close, and the second close is
      then not reached\<close>
  "terminate self force =
     (case io_close (p_fr self) of
        (Some e, fr') \<Rightarrow> self\<lparr>p_fr := fr'\<rparr>
      | (None, fr') \<Rightarrow>
          (case io_close (p_fw self) of (_, fw') \<Rightarrow> self\<lparr>p_fr := fr', p_fw := fw'\<rparr>))"

subsection \<open>read_nonblocking\<close>

text \<open>
  The operating system is a parameter: whether \<open>os.name\<close> is \<open>posix\<close>, and what
  pexpect's two interrupt-tolerant waits and \<open>os.read\<close> answer. Each either returns or
  raises \<open>OSError\<close> with an \<open>errno\<close> (\<open>Inl\<close>). The calls that one \<open>read_nonblocking\<close>
  makes are recorded, in order, next to its result.
\<close>

record os_env =
  posix :: bool
  poll_ignore_interrupts :: "int list \<Rightarrow> rat option \<Rightarrow> int + int list"
  select_ignore_interrupts ::
    "int list \<Rightarrow> int list \<Rightarrow> int list \<Rightarrow> rat option \<Rightarrow> int + int list \<times> int list \<times> int list"
  os_read :: "int \<Rightarrow> int \<Rightarrow> int + bytes"

datatype syscall =
    Poll "int list" "rat option"
  | Select "int list" "int list" "int list" "rat option"
  | Read int int

definition wait_readable ::
  "os_env \<Rightarrow> pexpect_process \<Rightarrow> rat option \<Rightarrow> (int + int list) \<times> syscall list" where
  "wait_readable env self timeout =
     (let rlist = [child_fd self]; wlist = []; xlist = []
      in if use_poll self
         then (poll_ignore_interrupts env rlist timeout, [Poll rlist timeout])
         else (map_sum id fst (select_ignore_interrupts env rlist wlist xlist timeout),
               [Select rlist wlist xlist timeout]))"

definition read_body ::
  "os_env \<Rightarrow> pexpect_process \<Rightarrow> int \<Rightarrow> rat option \<Rightarrow> (error + bytes) \<times> syscall list" where
  \<comment> \<open>the body of the \<open>try\<close>\<close>
  "read_body env self size' timeout =
     (if posix env then
        (let timeout = (if timeout = Some (- 1) then p_timeout self else timeout)
         in case wait_readable env self timeout of
              (Inl n, calls) \<Rightarrow> (Inl (OSError n), calls)
            | (Inr rlist, calls) \<Rightarrow>
                if child_fd self \<notin> set rlist then (Inl TIMEOUT, calls)
                else (map_sum OSError id (os_read env (child_fd self) size'),
                      calls @ [Read (child_fd self) size']))
      else (map_sum OSError id (os_read env (child_fd self) size'), [Read (child_fd self) size']))"

definition except_OSError :: "int \<Rightarrow> error" where
  \<comment> \<open>the handler: the \<open>EIO\<close> test ends in \<open>pass\<close> and control goes on to the \<open>EBADF\<close>
      test and the bare \<open>raise\<close>\<close>
  "except_OSError n =
     (if n = EIO then (if n = EBADF then EOF else OSError n)
      else if n = EBADF then EOF
      else OSError n)"

definition read_nonblocking ::
  "os_env \<Rightarrow> pexpect_process \<Rightarrow> int \<Rightarrow> rat option \<Rightarrow> (error + bytes) \<times> syscall list" where
  "read_nonblocking env self size' timeout =
     (case read_body env self size' timeout of
        (Inl (OSError n), calls) \<Rightarrow> (Inl (except_OSError n), calls)
      | (Inl e, calls) \<Rightarrow> (Inl e, calls)
      | (Inr s, calls) \<Rightarrow> (Inr s, calls))"


section \<open>DuplicateStdout\<close>

text \<open>
  \<open>sys.stdout\<close> is process-wide state: it holds an ordinary stream or a
  \<open>DuplicateStdout\<close> object, each known by a number. The field \<open>stdout\<close> of the guard is
  its attribute \<open>self.stdout\<close>, the target to restore.
\<close>

datatype stdout_target = Stream nat | Hijack nat

record world =
  sys_stdout :: stdout_target
  w_proc :: pexpect_process
  w_sink :: "log_record list"

record duplicate_stdout =
  ds_id :: nat
  stdout :: "stdout_target option"

definition DuplicateStdout_init :: "nat \<Rightarrow> duplicate_stdout" where
  "DuplicateStdout_init ident = \<lparr> ds_id = ident, stdout = None \<rparr>"

definition ds_enter :: "duplicate_stdout \<times> world \<Rightarrow> duplicate_stdout \<times> world" where
  \<comment> \<open>\<open>__enter__\<close>\<close>
  "ds_enter st =
     (case st of (self, w) \<Rightarrow>
        if stdout self = None
        then (self\<lparr>stdout := Some (sys_stdout w)\<rparr>, w\<lparr>sys_stdout := Hijack (ds_id self)\<rparr>)
        else (self, w))"

definition ds_close :: "duplicate_stdout \<times> world \<Rightarrow> duplicate_stdout \<times> world" where
  "ds_close st =
     (case st of (self, w) \<Rightarrow>
        (case stdout self of
           Some target \<Rightarrow> (self\<lparr>stdout := None\<rparr>, w\<lparr>sys_stdout := target\<rparr>)
         | None \<Rightarrow> (self, w)))"

definition ds_exit :: "duplicate_stdout \<times> world \<Rightarrow> duplicate_stdout \<times> world" where
  \<comment> \<open>\<open>__exit__\<close>\<close>
  "ds_exit st = ds_close st"

definition ds_del :: "duplicate_stdout \<times> world \<Rightarrow> duplicate_stdout \<times> world" where
  \<comment> \<open>\<open>__del__\<close>\<close>
  "ds_del st = ds_close st"

definition is_empty_data :: "anystr \<Rightarrow> bool" where
  \<comment> \<open>\<open>not data\<close>\<close>
  "is_empty_data d = (case d of Str t \<Rightarrow> t = [] | Bin b \<Rightarrow> b = [])"

definition ds_write ::
  "duplicate_stdout \<times> world \<Rightarrow> anystr \<Rightarrow> (error + unit) \<times> duplicate_stdout \<times> world" where
  "ds_write st data =
     (case st of (self, w) \<Rightarrow>
        if is_empty_data data then (Inr (), self, w)
        else (case pexpect_write (w_proc w) data (w_sink w) of
                (Inl e, proc', sink') \<Rightarrow> (Inl e, self, w\<lparr>w_proc := proc', w_sink := sink'\<rparr>)
              | (Inr u, proc', sink') \<Rightarrow>
                  (Inr (), self,
                   w\<lparr>w_proc := proc', w_sink := sink', sys_stdout := Hijack (ds_id self)\<rparr>)))"

definition ds_flush :: "duplicate_stdout \<times> world \<Rightarrow> duplicate_stdout \<times> world" where
  "ds_flush st = st"

definition ds_isatty :: "duplicate_stdout \<Rightarrow> bool" where
  "ds_isatty self = True"

text \<open>
  What can happen to a guard and to \<open>sys.stdout\<close>, one step after another. \<open>Assign\<close>
  is an assignment to \<open>sys.stdout\<close> by other code.
\<close>

datatype ds_op = Enter | Exit | Del | Close | Write anystr | Flush | Assign stdout_target

fun ds_step :: "ds_op \<Rightarrow> duplicate_stdout \<times> world \<Rightarrow> duplicate_stdout \<times> world" where
  "ds_step Enter st = ds_enter st"
| "ds_step Exit st = ds_exit st"
| "ds_step Del st = ds_del st"
| "ds_step Close st = ds_close st"
| "ds_step (Write d) st = snd (ds_write st d)"
| "ds_step Flush st = ds_flush st"
| "ds_step (Assign t) st = (fst st, (snd st)\<lparr>sys_stdout := t\<rparr>)"

fun ds_run :: "ds_op list \<Rightarrow> duplicate_stdout \<times> world \<Rightarrow> duplicate_stdout \<times> world" where
  "ds_run [] st = st"
| "ds_run (x # xs) st = ds_run xs (ds_step x st)"

fun closes :: "ds_op \<Rightarrow> bool" where
  "closes Exit = True"
| "closes Del = True"
| "closes Close = True"
| "closes x = False"

fun assigns :: "ds_op \<Rightarrow> bool" where
  "assigns (Assign t) = True"
| "assigns x = False"

definition installed :: "duplicate_stdout \<times> world \<Rightarrow> bool" where
  \<comment> \<open>the guard is redirecting: it is what \<open>sys.stdout\<close> holds\<close>
  "installed st = (sys_stdout (snd st) = Hijack (ds_id (fst st)))"

section \<open>DuplicateStdoutMixin and DuplicateStdoutPopen\<close>

text \<open>
  A thread object holds its target (the \<open>_forward_io\<close> of the producer numbered
  \<open>th_target\<close>), the stream passed as its argument, and its daemon flag. The threads
  started so far are process-wide state.
\<close>

record thread =
  th_target :: nat
  th_args :: nat
  th_daemon :: bool

record duplicate_stdout_mixin =
  m_id :: nat
  forward_io_thread :: "thread option"

definition DuplicateStdoutMixin_init :: "nat \<Rightarrow> duplicate_stdout_mixin" where
  "DuplicateStdoutMixin_init ident = \<lparr> m_id = ident, forward_io_thread = None \<rparr>"

definition create_forward_io_thread ::
  "duplicate_stdout_mixin \<times> thread list \<Rightarrow> nat \<Rightarrow> duplicate_stdout_mixin \<times> thread list" where
  \<comment> \<open>a thread object is always true in a condition, so the test is whether the field
      is set\<close>
  "create_forward_io_thread st pexpect_proc =
     (case st of (self, started) \<Rightarrow>
        if forward_io_thread self \<noteq> None then (self, started)
        else (let t = \<lparr> th_target = m_id self, th_args = pexpect_proc, th_daemon = True \<rparr>
              in (self\<lparr>forward_io_thread := Some t\<rparr>, started @ [t])))"

definition DuplicateStdoutMixin_forward_io :: "duplicate_stdout_mixin \<Rightarrow> nat \<Rightarrow> error + unit" where
  \<comment> \<open>\<open>_forward_io\<close> as the mixin defines it\<close>
  "DuplicateStdoutMixin_forward_io self pexpect_proc = Inl NotImplementedError"

fun create_calls ::
  "nat list \<Rightarrow> duplicate_stdout_mixin \<times> thread list \<Rightarrow> duplicate_stdout_mixin \<times> thread list" where
  \<comment> \<open>\<open>create_forward_io_thread\<close> called once for each stream of the list, in order\<close>
  "create_calls [] st = st"
| "create_calls (p # ps) st = create_calls ps (create_forward_io_thread st p)"

record duplicate_stdout_popen =
  popen_mixin :: duplicate_stdout_mixin
  popen_stdin :: bytes

definition popen_send :: "duplicate_stdout_popen \<Rightarrow> anystr \<Rightarrow> duplicate_stdout_popen" where
  \<comment> \<open>\<open>DuplicateStdoutPopen.send\<close>: \<open>self.stdin.write(to_bytes(s, '\n'))\<close>\<close>
  "popen_send self s = self\<lparr>popen_stdin := popen_stdin self @ to_bytes s (Some (Str [10]))\<rparr>"


section \<open>Runs and sample values\<close>



definition call_raises :: "os_env \<Rightarrow> syscall \<Rightarrow> int option" where
  \<comment> \<open>the \<open>errno\<close> of the \<open>OSError\<close> that the operating system raises at a call, if any\<close>
  "call_raises env c =
     (case c of
        Poll r t \<Rightarrow> (case poll_ignore_interrupts env r t of Inl n \<Rightarrow> Some n | Inr _ \<Rightarrow> None)
      | Select r w x t \<Rightarrow>
          (case select_ignore_interrupts env r w x t of Inl n \<Rightarrow> Some n | Inr _ \<Rightarrow> None)
      | Read fd n \<Rightarrow> (case os_read env fd n of Inl e \<Rightarrow> Some e | Inr _ \<Rightarrow> None))"

definition file_r :: binary_io where
  "file_r = \<lparr> fileno = 3, closed = False, written = [], close_error = None \<rparr>"

definition file_w :: binary_io where
  "file_w = \<lparr> fileno = 4, closed = False, written = [], close_error = None \<rparr>"



definition dut1 :: pexpect_process where
  \<comment> \<open>the first of two streams, with pexpect's defaults\<close>
  "dut1 = PexpectProcess_init file_r file_w 1 2 \<lparr> kw_timeout = Some 30, kw_use_poll = False \<rparr>"

definition env_idle :: os_env where
  \<comment> \<open>a POSIX system on which nothing is readable\<close>
  "env_idle =
     \<lparr> posix = True,
       poll_ignore_interrupts = (\<lambda>r t. Inr []),
       select_ignore_interrupts = (\<lambda>r w x t. Inr ([], [], [])),
       os_read = (\<lambda>fd n. Inr []) \<rparr>"

definition env_eio :: os_env where
  \<comment> \<open>a POSIX system on which the descriptor is readable and \<open>os.read\<close> raises \<open>EIO\<close>\<close>
  "env_eio =
     \<lparr> posix = True,
       poll_ignore_interrupts = (\<lambda>r t. Inr r),
       select_ignore_interrupts = (\<lambda>r w x t. Inr (r, [], [])),
       os_read = (\<lambda>fd n. Inl EIO) \<rparr>"

definition env_bad_select :: os_env where
  \<comment> \<open>a POSIX system on which \<open>select\<close> rejects the descriptor with \<open>EBADF\<close>\<close>
  "env_bad_select =
     \<lparr> posix = True,
       poll_ignore_interrupts = (\<lambda>r t. Inr r),
       select_ignore_interrupts = (\<lambda>r w x t. Inl EBADF),
       os_read = (\<lambda>fd n. Inr []) \<rparr>"

definition env_eagain :: os_env where
  \<comment> \<open>a POSIX system on which the descriptor is readable and \<open>os.read\<close> raises
      \<open>EAGAIN\<close>, \<open>errno\<close> 11\<close>
  "env_eagain =
     \<lparr> posix = True,
       poll_ignore_interrupts = (\<lambda>r t. Inr r),
       select_ignore_interrupts = (\<lambda>r w x t. Inr (r, [], [])),
       os_read = (\<lambda>fd n. Inl 11) \<rparr>"

definition world0 :: world where
  \<comment> \<open>a process whose \<open>sys.stdout\<close> is the stream numbered 1\<close>
  "world0 = \<lparr> sys_stdout = Stream 1, w_proc = dut1, w_sink = [] \<rparr>"

section \<open>UTF-8: encoding what was decoded\<close>

lemma utf8_encode_cp_ascii: "unat (b::byte) < 0x80 \<Longrightarrow> utf8_encode_cp (unat b) = [b]"
  by (simp add: utf8_encode_cp_def)

lemma seq2_arith:
  fixes a b1 :: nat
  assumes "0xC0 \<le> a" "a < 0xE0" "0x80 \<le> b1" "b1 < 0xC0"
  shows "0xC0 + ((a - 0xC0) * 64 + (b1 - 0x80)) div 64 = a"
    and "0x80 + ((a - 0xC0) * 64 + (b1 - 0x80)) mod 64 = b1"
    and "(a - 0xC0) * 64 + (b1 - 0x80) < 0x800"
proof -
  obtain q r where q: "a = 0xC0 + q" and r: "b1 = 0x80 + r"
    using assms by (metis le_iff_add)
  have "r < 64" "q < 32" using assms q r by simp_all
  then show "0xC0 + ((a - 0xC0) * 64 + (b1 - 0x80)) div 64 = a"
    and "0x80 + ((a - 0xC0) * 64 + (b1 - 0x80)) mod 64 = b1"
    and "(a - 0xC0) * 64 + (b1 - 0x80) < 0x800"
    by (simp_all add: q r)
qed

lemma seq2_enc:
  assumes "seq2 b bs = Some c"
  shows "\<exists>b1 r. bs = b1 # r \<and> utf8_encode_cp c = [b, b1]"
proof (cases bs)
  case Nil then show ?thesis using assms by simp
next
  case (Cons b1 r)
  let ?c = "(unat b - 0xC0) * 64 + (unat b1 - 0x80)"
  from assms Cons have h: "0xC0 \<le> unat b" "unat b < 0xE0" "0x80 \<le> unat b1" "unat b1 < 0xC0" "0x80 \<le> ?c" "c = ?c"
    by (auto simp: Let_def is_cont_def split: if_splits)
  show ?thesis using Cons h seq2_arith[OF h(1-4)]
    by (simp add: utf8_encode_cp_def)
qed

lemma seq3_arith:
  fixes a b1 b2 :: nat
  assumes "0xE0 \<le> a" "a < 0xF0" "0x80 \<le> b1" "b1 < 0xC0" "0x80 \<le> b2" "b2 < 0xC0"
  defines "c \<equiv> (a - 0xE0) * 4096 + (b1 - 0x80) * 64 + (b2 - 0x80)"
  shows "0xE0 + c div 4096 = a"
    and "0x80 + c div 64 mod 64 = b1"
    and "0x80 + c mod 64 = b2"
    and "c < 0x10000"
proof -
  obtain q r s where q: "a = 0xE0 + q" and r: "b1 = 0x80 + r" and s: "b2 = 0x80 + s"
    using assms by (metis le_iff_add)
  have b: "r < 64" "q < 16" "s < 64" using assms q r s by simp_all
  have c: "c = q * 4096 + (r * 64 + s)" by (simp add: c_def q r s)
  have rs: "r * 64 + s < 4096" using b by simp
  have d1: "c div 4096 = q" unfolding c using rs by simp
  define k where "k = q * 64 + r"
  have ck: "c = k * 64 + s" unfolding c k_def by simp
  have d2: "c div 64 = q * 64 + r" and d3: "c mod 64 = s"
    unfolding ck using b by (simp_all add: k_def [symmetric]) 
  show "0xE0 + c div 4096 = a" by (simp add: d1 q)
  show "0x80 + c div 64 mod 64 = b1" using b by (simp add: d2 r)
  show "0x80 + c mod 64 = b2" by (simp add: d3 s)
  show "c < 0x10000" unfolding c using b by simp
qed

lemma seq4_arith:
  fixes a b1 b2 b3 :: nat
  assumes "0xF0 \<le> a" "a < 0xF8" "0x80 \<le> b1" "b1 < 0xC0" "0x80 \<le> b2" "b2 < 0xC0"
    "0x80 \<le> b3" "b3 < 0xC0"
  defines "c \<equiv> (a - 0xF0) * 262144 + (b1 - 0x80) * 4096 + (b2 - 0x80) * 64 + (b3 - 0x80)"
  shows "0xF0 + c div 262144 = a"
    and "0x80 + c div 4096 mod 64 = b1"
    and "0x80 + c div 64 mod 64 = b2"
    and "0x80 + c mod 64 = b3"
proof -
  obtain q r s t where q: "a = 0xF0 + q" and r: "b1 = 0x80 + r" and s: "b2 = 0x80 + s"
    and t: "b3 = 0x80 + t"
    using assms by (metis le_iff_add)
  have b: "r < 64" "q < 8" "s < 64" "t < 64" using assms q r s t by simp_all
  have c: "c = q * 262144 + (r * 4096 + (s * 64 + t))" by (simp add: c_def q r s t)
  have rst: "r * 4096 + (s * 64 + t) < 262144" using b by simp
  have d1: "c div 262144 = q" unfolding c using rst by simp
  have st: "s * 64 + t < 4096" using b by simp
  define k where "k = q * 64 + r"
  define m where "m = k * 64 + s"
  define n where "n = s * 64 + t"
  have ck: "c = k * 4096 + n" unfolding c k_def n_def by simp
  have d2: "c div 4096 = q * 64 + r"
    unfolding ck using st by (simp add: k_def [symmetric] n_def [symmetric])
  have cm: "c = m * 64 + t" unfolding c m_def k_def by simp
  have d3: "c div 64 = m" and d4: "c mod 64 = t"
    unfolding cm using b by simp_all
  show "0xF0 + c div 262144 = a" by (simp add: d1 q)
  show "0x80 + c div 4096 mod 64 = b1" using b by (simp add: d2 r)
  show "0x80 + c div 64 mod 64 = b2" using b by (simp add: d3 m_def s)
  show "0x80 + c mod 64 = b3" by (simp add: d4 t)
qed


lemma seq3_enc:
  assumes "seq3 b bs = Some c"
  shows "\<exists>b1 b2 r. bs = b1 # b2 # r \<and> utf8_encode_cp c = [b, b1, b2]"
proof -
  obtain b1 b2 r where bs: "bs = b1 # b2 # r"
    using assms by (cases "(b, bs)" rule: seq3.cases) auto
  let ?c = "(unat b - 0xE0) * 4096 + (unat b1 - 0x80) * 64 + (unat b2 - 0x80)"
  have g: "0xE0 \<le> unat b \<and> unat b < 0xF0 \<and> is_cont b1 \<and> is_cont b2 \<and> 0x800 \<le> ?c \<and> scalar ?c"
    and c: "c = ?c"
    using assms unfolding bs seq3.simps Let_def by (simp_all split: if_splits)
  have h: "0xE0 \<le> unat b" "unat b < 0xF0" "0x80 \<le> unat b1" "unat b1 < 0xC0"
    "0x80 \<le> unat b2" "unat b2 < 0xC0"
    using g unfolding is_cont_def by blast+
  note e = seq3_arith [OF h, folded c]
  have lo: "0x800 \<le> c" using g unfolding c by blast
  have "utf8_encode_cp c = [of_nat (unat b), of_nat (unat b1), of_nat (unat b2)]"
    unfolding utf8_encode_cp_def e(1-3) using lo e(4) by simp
  then show ?thesis using bs by simp
qed

lemma seq4_enc:
  assumes "seq4 b bs = Some c"
  shows "\<exists>b1 b2 b3 r. bs = b1 # b2 # b3 # r \<and> utf8_encode_cp c = [b, b1, b2, b3]"
proof -
  obtain b1 b2 b3 r where bs: "bs = b1 # b2 # b3 # r"
    using assms by (cases "(b, bs)" rule: seq4.cases) auto
  let ?c = "(unat b - 0xF0) * 262144 + (unat b1 - 0x80) * 4096 + (unat b2 - 0x80) * 64
              + (unat b3 - 0x80)"
  have g: "0xF0 \<le> unat b \<and> unat b < 0xF8 \<and> is_cont b1 \<and> is_cont b2 \<and> is_cont b3
            \<and> 0x10000 \<le> ?c \<and> scalar ?c"
    and c: "c = ?c"
    using assms unfolding bs seq4.simps Let_def by (simp_all split: if_splits)
  have h: "0xF0 \<le> unat b" "unat b < 0xF8" "0x80 \<le> unat b1" "unat b1 < 0xC0"
    "0x80 \<le> unat b2" "unat b2 < 0xC0" "0x80 \<le> unat b3" "unat b3 < 0xC0"
    using g unfolding is_cont_def by blast+
  note e = seq4_arith [OF h, folded c]
  have lo: "0x10000 \<le> c" using g unfolding c by blast
  have "utf8_encode_cp c = [of_nat (unat b), of_nat (unat b1), of_nat (unat b2), of_nat (unat b3)]"
    unfolding utf8_encode_cp_def e using lo by simp
  then show ?thesis using bs by simp
qed

lemma utf8_encode_Cons: "utf8_encode (c # t) = utf8_encode_cp c @ utf8_encode t"
  by (simp add: utf8_encode_def)

lemma utf8_roundtrip: "utf8_valid bs \<Longrightarrow> utf8_encode (utf8_decode bs) = bs"
proof (induction bs rule: utf8_valid.induct)
  case 1
  show ?case by (simp add: utf8_encode_def)
next
  case (2 b bs)
  show ?case
  proof (cases "unat b < 0x80")
    case True
    with 2 show ?thesis by (simp add: utf8_encode_Cons utf8_encode_cp_ascii)
  next
    case n1: False
    show ?thesis
    proof (cases "seq2 b bs")
      case (Some c)
      then obtain b1 r where "bs = b1 # r" "utf8_encode_cp c = [b, b1]"
        using seq2_enc by blast
      with 2 n1 Some show ?thesis by (simp add: utf8_encode_Cons)
    next
      case n2: None
      show ?thesis
      proof (cases "seq3 b bs")
        case (Some c)
        then obtain b1 b2 r where "bs = b1 # b2 # r" "utf8_encode_cp c = [b, b1, b2]"
          using seq3_enc by blast
        with 2 n1 n2 Some show ?thesis by (simp add: utf8_encode_Cons)
      next
        case n3: None
        show ?thesis
        proof (cases "seq4 b bs")
          case (Some c)
          then obtain b1 b2 b3 r where "bs = b1 # b2 # b3 # r" "utf8_encode_cp c = [b, b1, b2, b3]"
            using seq4_enc by blast
          with 2 n1 n2 n3 Some show ?thesis by (simp add: utf8_encode_Cons)
        next
          case None
          with 2(5) n1 n2 n3 show ?thesis by simp
        qed
      qed
    qed
  qed
qed

text \<open>
  C9. For every byte string \<open>B\<close> that is valid UTF-8, \<open>to_bytes(to_str(B))\<close> is \<open>B\<close>
  again; and for every text and every terminator \<open>T\<close>, \<open>to_bytes(text, T)\<close> ends in
  the bytes of \<open>T\<close> (its UTF-8 encoding when \<open>T\<close> is a text, \<open>T\<close> itself when it is
  binary).
\<close>

theorem to_bytes_to_str_roundtrip:
  "(utf8_valid B \<longrightarrow> to_bytes (Str (to_str (Bin B))) None = B)
   \<and> suffix (to_bytes T None) (to_bytes (Str t) (Some T))"
  by (simp add: to_bytes_def to_str_def utf8_roundtrip suffix_def split: anystr.split)

theorem to_bytes_to_str_roundtrip_witness:
  "utf8_valid [0x68, 0xC3, 0xA9, 0xE2, 0x82, 0xAC, 0xF0, 0x9F, 0x98, 0x80]
   \<and> to_bytes (Str (to_str (Bin [0x68, 0xC3, 0xA9, 0xE2, 0x82, 0xAC, 0xF0, 0x9F, 0x98, 0x80]))) None
       = [0x68, 0xC3, 0xA9, 0xE2, 0x82, 0xAC, 0xF0, 0x9F, 0x98, 0x80]
   \<and> suffix (to_bytes (Str [13, 10]) None) (to_bytes (Str [0x68, 0xE9]) (Some (Str [13, 10])))"
proof -
  have v: "utf8_valid [0x68, 0xC3, 0xA9, 0xE2, 0x82, 0xAC, 0xF0, 0x9F, 0x98, 0x80]"
    by (simp add: is_cont_def scalar_def)
  show ?thesis
    using v to_bytes_to_str_roundtrip
      [of "[0x68, 0xC3, 0xA9, 0xE2, 0x82, 0xAC, 0xF0, 0x9F, 0x98, 0x80]" "Str [13, 10]" "[0x68, 0xE9]"]
    by simp
qed

section \<open>UTF-8: decoding what was encoded\<close>

lemma unat_of_nat_byte: "n < 256 \<Longrightarrow> unat (of_nat n :: byte) = n"
  by (simp add: unat_of_nat)

lemma decode_step1:
  assumes "c < 0x80"
  shows "utf8_decode (utf8_encode_cp c @ rest) = c # utf8_decode rest
    \<and> utf8_valid (utf8_encode_cp c @ rest) = utf8_valid rest"
  using assms by (simp add: utf8_encode_cp_def unat_of_nat_byte)

lemma decode_step2:
  assumes "0x80 \<le> c" "c < 0x800"
  shows "utf8_decode (utf8_encode_cp c @ rest) = c # utf8_decode rest
    \<and> utf8_valid (utf8_encode_cp c @ rest) = utf8_valid rest"
proof -
  define q where "q = c div 64"
  define r where "r = c mod 64"
  have c: "c = q * 64 + r" by (simp add: q_def r_def)
  have b: "q < 32" "r < 64" "2 \<le> q" using assms by (simp_all add: q_def r_def)
  have u0: "unat (of_nat (0xC0 + q) :: byte) = 0xC0 + q"
    using b by (intro unat_of_nat_byte) simp
  have u1: "unat (of_nat (0x80 + r) :: byte) = 0x80 + r"
    using b by (intro unat_of_nat_byte) simp
  have e: "utf8_encode_cp c = [of_nat (0xC0 + q), of_nat (0x80 + r)]"
    using assms by (simp add: utf8_encode_cp_def q_def r_def)
  have s: "seq2 (of_nat (0xC0 + q)) (of_nat (0x80 + r) # rest) = Some c"
    unfolding seq2.simps u0 u1 is_cont_def Let_def using b assms(1) by (simp add: c)
  show ?thesis unfolding e using s u0 b by simp
qed


lemma split3:
  fixes c :: nat
  shows "c = (c div 4096) * 4096 + (c div 64 mod 64) * 64 + c mod 64"
proof -
  define a where "a = c div 64"
  define m where "m = c mod 64"
  define q where "q = a div 64"
  define r where "r = a mod 64"
  have 1: "c = a * 64 + m" by (simp add: a_def m_def)
  have 2: "a = q * 64 + r" by (simp add: q_def r_def)
  have 3: "q = c div 4096" by (simp add: q_def a_def div_mult2_eq [symmetric])
  have "c = q * 4096 + r * 64 + m" unfolding 1 2 by simp
  then show ?thesis unfolding 3 r_def a_def m_def .
qed

lemma split4:
  fixes c :: nat
  shows "c = (c div 262144) * 262144 + (c div 4096 mod 64) * 4096 + (c div 64 mod 64) * 64 + c mod 64"
proof -
  define a where "a = c div 4096"
  define q where "q = a div 64"
  define r where "r = a mod 64"
  have 2: "a = q * 64 + r" by (simp add: q_def r_def)
  have 3: "q = c div 262144" by (simp add: q_def a_def div_mult2_eq [symmetric])
  have "c = a * 4096 + (c div 64 mod 64) * 64 + c mod 64" unfolding a_def by (rule split3)
  then have "c = q * 262144 + r * 4096 + (c div 64 mod 64) * 64 + c mod 64"
    unfolding 2 by simp
  then show ?thesis unfolding 3 r_def a_def .
qed

lemma decode_step3:
  assumes "0x800 \<le> c" "c < 0x10000" "scalar c"
  shows "utf8_decode (utf8_encode_cp c @ rest) = c # utf8_decode rest
    \<and> utf8_valid (utf8_encode_cp c @ rest) = utf8_valid rest"
proof -
  define q where "q = c div 4096"
  define r where "r = c div 64 mod 64"
  define s where "s = c mod 64"
  have c: "c = q * 4096 + r * 64 + s"
    unfolding q_def r_def s_def by (rule split3)
  have b: "q < 16" "r < 64" "s < 64" using assms by (simp_all add: q_def r_def s_def)
  have u0: "unat (of_nat (0xE0 + q) :: byte) = 0xE0 + q"
    using b by (intro unat_of_nat_byte) simp
  have u1: "unat (of_nat (0x80 + r) :: byte) = 0x80 + r"
    using b by (intro unat_of_nat_byte) simp
  have u2: "unat (of_nat (0x80 + s) :: byte) = 0x80 + s"
    using b by (intro unat_of_nat_byte) simp
  have e: "utf8_encode_cp c = [of_nat (0xE0 + q), of_nat (0x80 + r), of_nat (0x80 + s)]"
    using assms by (simp add: utf8_encode_cp_def q_def r_def s_def)
  have n2: "seq2 (of_nat (0xE0 + q)) (of_nat (0x80 + r) # of_nat (0x80 + s) # rest) = None"
    unfolding seq2.simps u0 Let_def by simp
  have s3: "seq3 (of_nat (0xE0 + q)) (of_nat (0x80 + r) # of_nat (0x80 + s) # rest) = Some c"
    unfolding seq3.simps u0 u1 u2 is_cont_def Let_def using b assms(1,3) by (simp add: c)
  show ?thesis unfolding e using n2 s3 u0 by simp
qed

lemma decode_step4:
  assumes "0x10000 \<le> c" "scalar c"
  shows "utf8_decode (utf8_encode_cp c @ rest) = c # utf8_decode rest
    \<and> utf8_valid (utf8_encode_cp c @ rest) = utf8_valid rest"
proof -
  define q where "q = c div 262144"
  define r where "r = c div 4096 mod 64"
  define s where "s = c div 64 mod 64"
  define t where "t = c mod 64"
  have c: "c = q * 262144 + r * 4096 + s * 64 + t"
    unfolding q_def r_def s_def t_def by (rule split4)
  have lt: "c < 0x110000" using assms(2) by (simp add: scalar_def)
  have b: "q < 8" "r < 64" "s < 64" "t < 64" using lt by (simp_all add: q_def r_def s_def t_def)
  have u0: "unat (of_nat (0xF0 + q) :: byte) = 0xF0 + q"
    using b by (intro unat_of_nat_byte) simp
  have u1: "unat (of_nat (0x80 + r) :: byte) = 0x80 + r"
    using b by (intro unat_of_nat_byte) simp
  have u2: "unat (of_nat (0x80 + s) :: byte) = 0x80 + s"
    using b by (intro unat_of_nat_byte) simp
  have u3: "unat (of_nat (0x80 + t) :: byte) = 0x80 + t"
    using b by (intro unat_of_nat_byte) simp
  have e: "utf8_encode_cp c =
      [of_nat (0xF0 + q), of_nat (0x80 + r), of_nat (0x80 + s), of_nat (0x80 + t)]"
    using assms(1) by (simp add: utf8_encode_cp_def q_def r_def s_def t_def)
  let ?bs = "of_nat (0x80 + r) # of_nat (0x80 + s) # of_nat (0x80 + t) # rest"
  have n2: "seq2 (of_nat (0xF0 + q)) ?bs = None"
    unfolding seq2.simps u0 Let_def by simp
  have n3: "seq3 (of_nat (0xF0 + q)) ?bs = None"
    unfolding seq3.simps u0 Let_def by simp
  have s4: "seq4 (of_nat (0xF0 + q)) ?bs = Some c"
    unfolding seq4.simps u0 u1 u2 u3 is_cont_def Let_def using b assms by (simp add: c)
  show ?thesis unfolding e using n2 n3 s4 u0 by simp
qed

lemma utf8_decode_encode_cp:
  "scalar c \<Longrightarrow>
     utf8_decode (utf8_encode_cp c @ rest) = c # utf8_decode rest
     \<and> utf8_valid (utf8_encode_cp c @ rest) = utf8_valid rest"
  using decode_step1 [of c rest] decode_step2 [of c rest] decode_step3 [of c rest]
    decode_step4 [of c rest]
  by (cases "c < 0x80"; cases "c < 0x800"; cases "c < 0x10000") simp_all


lemma utf8_valid_encode: "\<forall>c\<in>set t. scalar c \<Longrightarrow> utf8_valid (utf8_encode t)"
  by (induction t) (simp_all add: utf8_encode_def utf8_decode_encode_cp)

section \<open>Text operations\<close>



lemma py_split_not_Nil: "py_split sep t \<noteq> []"
  by (induction t) (auto split: list.splits)



lemma length_py_split: "length (py_split sep t) = Suc (count_list t sep)"
  by (induction t) (auto split: list.splits simp: py_split_not_Nil)

section \<open>PexpectProcess: sending\<close>








lemma send_closed:
  "closed (p_fw self) \<Longrightarrow> coerce_send_string s = Inr b \<Longrightarrow> fst (send self s sink) = Inr 0"
  by (simp add: send_def Let_def io_write_def)


lemma send_open:
  "\<not> closed (p_fw self) \<Longrightarrow> coerce_send_string s = Inr b \<Longrightarrow>
     fst (send self s sink) = Inr (int (length b))
     \<and> fst (snd (send self s sink)) =
         self\<lparr>p_fw := (p_fw self)\<lparr>written := written (p_fw self) @ b\<rparr>\<rparr>"
  by (simp add: send_def Let_def io_write_def io_flush_def)



lemma terminate_closes_fr: "closed (p_fr (terminate self force))"
  by (auto simp: terminate_def io_close_def split: prod.splits option.splits if_splits)





lemma text_of_simps: "text_of [] = []" "text_of (c # cs) = of_char c # text_of cs"
  by (simp_all add: text_of_def)

lemma dut1_simps:
  "p_source dut1 = Some (text_of ''dut-1'')" "p_fw dut1 = file_w" "p_fr dut1 = file_r"
  "child_fd dut1 = 3" "p_timeout dut1 = Some 30" "use_poll dut1 = False"
  by (simp_all add: dut1_def PexpectProcess_init_def text_of_simps str_int_def str_nat.simps file_r_def)
















section \<open>PexpectProcess: reading\<close>

lemma except_OSError_eq: "except_OSError n = (if n = EBADF then EOF else OSError n)"
  by (simp add: except_OSError_def)

lemma EIO_neq_EBADF: "EIO \<noteq> EBADF"
  by (simp add: EIO_def EBADF_def)

lemma read_nonblocking_calls:
  "snd (read_nonblocking env self size' timeout) = snd (read_body env self size' timeout)"
  by (simp add: read_nonblocking_def split: prod.splits sum.splits error.splits)

lemma read_nonblocking_result:
  "fst (read_nonblocking env self size' timeout) =
     (case fst (read_body env self size' timeout) of
        Inl (OSError n) \<Rightarrow> Inl (if n = EBADF then EOF else OSError n)
      | Inl e \<Rightarrow> Inl e
      | Inr s \<Rightarrow> Inr s)"
  by (simp add: read_nonblocking_def except_OSError_eq split: prod.splits sum.splits error.splits)

text \<open>
  What the body of the \<open>try\<close> raises or returns, in terms of the calls it made: an
  \<open>OSError\<close> is the failure of the last call, \<open>TIMEOUT\<close> comes after a wait that
  returned without the descriptor, and nothing else is raised.
\<close>

lemma read_body_OSError:
  "fst (read_body env self size' timeout) = Inl (OSError n)
     \<longleftrightarrow> (\<exists>c\<in>set (snd (read_body env self size' timeout)). call_raises env c = Some n)"
  by (auto simp: read_body_def wait_readable_def call_raises_def Let_def
           split: sum.splits prod.splits if_splits)

lemma map_sum_Inl_iff: "map_sum f g x = Inl e \<longleftrightarrow> (\<exists>a. x = Inl a \<and> f a = e)"
  by (cases x) auto

lemma read_body_errors:
  "fst (read_body env self size' timeout) = Inl e \<Longrightarrow> e = TIMEOUT \<or> (\<exists>n. e = OSError n)"
  by (auto simp: read_body_def wait_readable_def Let_def map_sum_Inl_iff
           split: sum.splits prod.splits if_splits)

lemma read_body_TIMEOUT:
  "fst (read_body env self size' timeout) = Inl TIMEOUT \<longleftrightarrow>
     posix env \<and>
     (\<exists>rlist. fst (wait_readable env self (if timeout = Some (- 1) then p_timeout self else timeout))
                = Inr rlist \<and> child_fd self \<notin> set rlist)"
  by (auto simp: read_body_def Let_def map_sum_Inl_iff split: sum.splits prod.splits if_splits)

lemma read_body_timeout_calls:
  "posix env \<Longrightarrow>
   fst (wait_readable env self (if timeout = Some (- 1) then p_timeout self else timeout)) = Inr rlist \<Longrightarrow>
   child_fd self \<notin> set rlist \<Longrightarrow>
   read_body env self size' timeout =
     (Inl TIMEOUT, snd (wait_readable env self (if timeout = Some (- 1) then p_timeout self else timeout)))"
  by (auto simp: read_body_def Let_def split: sum.splits prod.splits if_splits)

text \<open>
  C1 (the code raises where the claim expects an empty result). With the descriptor
  readable and \<open>os.read\<close> raising \<open>OSError(EIO)\<close>, \<open>read_nonblocking\<close> raises that
  \<open>OSError\<close>: after the \<open>pass\<close> of the \<open>EIO\<close> test the handler reaches its bare
  \<open>raise\<close>.
\<close>

theorem read_nonblocking_EIO_is_raised:
  "read_nonblocking env_eio dut1 1 (Some 0)
     = (Inl (OSError EIO), [Select [3] [] [] (Some 0), Read 3 1])"
  by (simp add: read_nonblocking_def read_body_def wait_readable_def env_eio_def dut1_simps
        except_OSError_def EIO_neq_EBADF Let_def)

text \<open>
  C2, as the claim states it, fails: \<open>EOF\<close> is also raised when the wait for
  readability is what fails with \<open>EBADF\<close>; here \<open>os.read\<close> is not even called.
\<close>

theorem read_nonblocking_EOF_without_read:
  "fst (read_nonblocking env_bad_select dut1 1 (Some 0)) = Inl EOF
   \<and> snd (read_nonblocking env_bad_select dut1 1 (Some 0)) = [Select [3] [] [] (Some 0)]
   \<and> call_raises env_bad_select (Read 3 1) = None"
  by (simp add: read_nonblocking_def read_body_def wait_readable_def env_bad_select_def dut1_simps
        except_OSError_def EIO_neq_EBADF call_raises_def Let_def)

text \<open>
  C2, amended. \<open>read_nonblocking\<close> raises \<open>EOF\<close> exactly when one of the operating
  system calls it made, the wait for readability or the read, raised \<open>OSError\<close> with
  \<open>EBADF\<close>. When the wait returns without the descriptor in its ready list the call
  raises \<open>TIMEOUT\<close>, which is not \<open>EOF\<close>. An \<open>OSError\<close> of a call with an \<open>errno\<close>
  other than \<open>EIO\<close> and \<open>EBADF\<close> is raised unchanged.
\<close>

theorem read_nonblocking_EOF_iff_EBADF:
  "(fst (read_nonblocking env self size' timeout) = Inl EOF
      \<longleftrightarrow> (\<exists>c\<in>set (snd (read_nonblocking env self size' timeout)). call_raises env c = Some EBADF))
   \<and> (posix env
        \<and> fst (wait_readable env self (if timeout = Some (- 1) then p_timeout self else timeout)) = Inr rlist
        \<and> child_fd self \<notin> set rlist
       \<longrightarrow> fst (read_nonblocking env self size' timeout) = Inl TIMEOUT)
   \<and> ((\<exists>c\<in>set (snd (read_nonblocking env self size' timeout)). call_raises env c = Some n)
        \<and> n \<noteq> EIO \<and> n \<noteq> EBADF
       \<longrightarrow> fst (read_nonblocking env self size' timeout) = Inl (OSError n))"
proof -
  let ?b = "read_body env self size' timeout"
  have 1: "fst (read_nonblocking env self size' timeout) = Inl EOF
      \<longleftrightarrow> (\<exists>c\<in>set (snd (read_nonblocking env self size' timeout)). call_raises env c = Some EBADF)"
  proof -
    have "fst (read_nonblocking env self size' timeout) = Inl EOF \<longleftrightarrow> fst ?b = Inl (OSError EBADF)"
    proof (cases "fst ?b")
      case (Inl e)
      then consider "e = TIMEOUT" | n where "e = OSError n" using read_body_errors by blast
      then show ?thesis using Inl by cases (simp_all add: read_nonblocking_result)
    next
      case (Inr s)
      then show ?thesis by (simp add: read_nonblocking_result)
    qed
    then show ?thesis by (simp add: read_body_OSError read_nonblocking_calls)
  qed
  have 2: "fst (read_nonblocking env self size' timeout) = Inl TIMEOUT"
    if "posix env"
      "fst (wait_readable env self (if timeout = Some (- 1) then p_timeout self else timeout)) = Inr rlist"
      "child_fd self \<notin> set rlist"
    using read_body_timeout_calls [OF that, of size'] by (simp add: read_nonblocking_result)
  have 3: "fst (read_nonblocking env self size' timeout) = Inl (OSError n)"
    if "\<exists>c\<in>set (snd (read_nonblocking env self size' timeout)). call_raises env c = Some n"
      "n \<noteq> EIO" "n \<noteq> EBADF"
  proof -
    have "fst ?b = Inl (OSError n)"
      using that(1) by (simp add: read_body_OSError read_nonblocking_calls)
    then show ?thesis using that(3) by (simp add: read_nonblocking_result)
  qed
  show ?thesis using 1 2 3 by blast
qed


theorem read_nonblocking_EOF_iff_EBADF_witness:
  "fst (read_nonblocking env_bad_select dut1 1 (Some 0)) = Inl EOF
   \<and> snd (read_nonblocking env_bad_select dut1 1 (Some 0)) = [Select [3] [] [] (Some 0)]
   \<and> call_raises env_bad_select (Select [3] [] [] (Some 0)) = Some EBADF
   \<and> posix env_idle
   \<and> fst (wait_readable env_idle dut1 (Some 0)) = Inr []
   \<and> child_fd dut1 = 3
   \<and> fst (read_nonblocking env_idle dut1 1 (Some 0)) = Inl TIMEOUT
   \<and> snd (read_nonblocking env_eagain dut1 1 (Some 0)) = [Select [3] [] [] (Some 0), Read 3 1]
   \<and> call_raises env_eagain (Read 3 1) = Some 11
   \<and> 11 \<noteq> EIO \<and> 11 \<noteq> EBADF
   \<and> fst (read_nonblocking env_eagain dut1 1 (Some 0)) = Inl (OSError 11)"
proof -
  have a: "snd (read_nonblocking env_bad_select dut1 1 (Some 0)) = [Select [3] [] [] (Some 0)]"
    by (simp add: read_nonblocking_calls read_body_def wait_readable_def env_bad_select_def
          dut1_simps Let_def)
  have b: "call_raises env_bad_select (Select [3] [] [] (Some 0)) = Some EBADF"
    by (simp add: call_raises_def env_bad_select_def)
  have c: "posix env_idle"
    "fst (wait_readable env_idle dut1 (Some 0)) = Inr []"
    by (simp_all add: env_idle_def wait_readable_def dut1_simps Let_def)
  have d: "snd (read_nonblocking env_eagain dut1 1 (Some 0)) = [Select [3] [] [] (Some 0), Read 3 1]"
    by (simp add: read_nonblocking_calls read_body_def wait_readable_def env_eagain_def
          dut1_simps Let_def)
  have e: "call_raises env_eagain (Read 3 1) = Some 11"
    by (simp add: call_raises_def env_eagain_def)
  have f: "11 \<noteq> EIO" "11 \<noteq> EBADF" by (simp_all add: EIO_def EBADF_def)
  show ?thesis
    using a b c d e f
      read_nonblocking_EOF_iff_EBADF [of env_bad_select dut1 1 "Some 0" "[]" 11]
      read_nonblocking_EOF_iff_EBADF [of env_idle dut1 1 "Some 0" "[]" 11]
      read_nonblocking_EOF_iff_EBADF [of env_eagain dut1 1 "Some 0" "[]" 11]
    by (simp add: dut1_simps)
qed

text \<open>
  C4. On a POSIX system \<open>read_nonblocking\<close> waits for the descriptor with one of
  pexpect's interrupt-tolerant waits (\<open>poll_ignore_interrupts\<close> or
  \<open>select_ignore_interrupts\<close>), to which it passes the timeout of the call, or the
  default timeout of the stream when the call gives the sentinel \<open>-1\<close>. When the wait
  returns without the descriptor in its ready list the call raises \<open>TIMEOUT\<close>, and the
  wait was the only call it made: no \<open>os.read\<close>, which could block, is started. That the
  wait itself returns within the timeout is pexpect's part.
\<close>

theorem read_nonblocking_times_out:
  "posix env \<Longrightarrow>
   eff = (if timeout = Some (- 1) then p_timeout self else timeout) \<Longrightarrow>
   (if use_poll self then poll_ignore_interrupts env [child_fd self] eff = Inr rlist
    else select_ignore_interrupts env [child_fd self] [] [] eff = Inr (rlist, wlist, xlist)) \<Longrightarrow>
   child_fd self \<notin> set rlist \<Longrightarrow>
   read_nonblocking env self size' timeout =
     (Inl TIMEOUT,
      [if use_poll self then Poll [child_fd self] eff else Select [child_fd self] [] [] eff])"
  by (cases "use_poll self")
     (simp_all add: read_nonblocking_def read_body_def wait_readable_def Let_def)

theorem read_nonblocking_times_out_witness:
  "posix env_idle
   \<and> select_ignore_interrupts env_idle [child_fd dut1] [] [] (Some 0) = Inr ([], [], [])
   \<and> select_ignore_interrupts env_idle [child_fd dut1] [] [] (Some 30) = Inr ([], [], [])
   \<and> child_fd dut1 = 3
   \<and> read_nonblocking env_idle dut1 1 (Some 0) = (Inl TIMEOUT, [Select [3] [] [] (Some 0)])
   \<and> read_nonblocking env_idle dut1 1 (Some (- 1)) = (Inl TIMEOUT, [Select [3] [] [] (Some 30)])"
proof -
  have a: "posix env_idle" by (simp add: env_idle_def)
  have b: "select_ignore_interrupts env_idle [child_fd dut1] [] [] t = Inr ([], [], [])" for t
    by (simp add: env_idle_def)
  show ?thesis
    using a b
      read_nonblocking_times_out [of env_idle "Some 0" "Some 0" dut1 "[]" "[]" "[]" 1]
      read_nonblocking_times_out [of env_idle "Some 30" "Some (- 1)" dut1 "[]" "[]" "[]" 1]
    by (simp add: dut1_simps)
qed

section \<open>DuplicateStdout: the remembered target and the redirection\<close>

lemma ds_enter_active: "stdout self \<noteq> None \<Longrightarrow> ds_enter (self, w) = (self, w)"
  by (cases "stdout self") (simp_all add: ds_enter_def)

lemma ds_enter_inactive:
  "stdout self = None \<Longrightarrow>
     ds_enter (self, w) =
       (self\<lparr>stdout := Some (sys_stdout w)\<rparr>, w\<lparr>sys_stdout := Hijack (ds_id self)\<rparr>)"
  by (simp add: ds_enter_def)

lemma ds_close_inactive: "stdout self = None \<Longrightarrow> ds_close (self, w) = (self, w)"
  by (simp add: ds_close_def)

lemma ds_close_active:
  "stdout self = Some t \<Longrightarrow> ds_close (self, w) = (self\<lparr>stdout := None\<rparr>, w\<lparr>sys_stdout := t\<rparr>)"
  by (simp add: ds_close_def)

lemma ds_close_clears: "stdout (fst (ds_close st)) = None"
  by (cases st) (simp add: ds_close_def split: option.splits)

lemma ds_close_twice: "ds_close (ds_close st) = ds_close st"
  by (cases st) (simp add: ds_close_def split: option.splits)

lemma ds_write_stdout: "stdout (fst (snd (ds_write st d))) = stdout (fst st)"
  by (cases st) (simp add: ds_write_def split: prod.splits sum.splits)

lemma ds_step_stdout:
  "stdout (fst (ds_step x st)) =
     (if x = Enter then (case stdout (fst st) of None \<Rightarrow> Some (sys_stdout (snd st)) | Some t \<Rightarrow> Some t)
      else if closes x then None
      else stdout (fst st))"
  by (cases x; cases st)
     (simp_all add: ds_enter_def ds_exit_def ds_del_def ds_close_clears ds_write_stdout ds_flush_def
        split: option.splits)

lemma ds_run_remembers:
  "stdout (fst st) = Some t \<Longrightarrow> \<forall>x\<in>set ops. \<not> closes x \<Longrightarrow> stdout (fst (ds_run ops st)) = Some t"
  by (induction ops arbitrary: st) (simp_all add: ds_step_stdout)

lemma ds_step_id: "ds_id (fst (ds_step x st)) = ds_id (fst st)"
  by (cases x; cases st)
     (simp_all add: ds_enter_def ds_exit_def ds_del_def ds_close_def ds_write_def ds_flush_def
        split: option.splits prod.splits sum.splits)

lemma ds_write_sys_stdout:
  "sys_stdout (snd (snd (ds_write st d))) = sys_stdout (snd st)
   \<or> sys_stdout (snd (snd (ds_write st d))) = Hijack (ds_id (fst st))"
  by (cases st) (simp add: ds_write_def split: prod.splits sum.splits)

lemma ds_step_keeps:
  assumes "\<not> assigns x" "stdout (fst st) \<noteq> None \<longrightarrow> installed st"
  shows "stdout (fst (ds_step x st)) \<noteq> None \<longrightarrow> installed (ds_step x st)"
proof (cases x)
  case Enter
  then show ?thesis using assms(2)
    by (cases st) (auto simp: ds_enter_def installed_def)
next
  case (Write d)
  then show ?thesis using assms(2) ds_write_sys_stdout [of st d] ds_step_id [of x st]
    by (auto simp: installed_def ds_write_stdout)
next
  case Flush
  then show ?thesis using assms(2) by (simp add: ds_flush_def)
next
  case (Assign t)
  then show ?thesis using assms(1) by simp
qed (simp_all add: ds_exit_def ds_del_def ds_close_clears)

lemma ds_run_keeps:
  "\<forall>x\<in>set ops. \<not> assigns x \<Longrightarrow> stdout (fst st) \<noteq> None \<longrightarrow> installed st \<Longrightarrow>
     stdout (fst (ds_run ops st)) \<noteq> None \<longrightarrow> installed (ds_run ops st)"
proof (induction ops arbitrary: st)
  case Nil
  then show ?case by simp
next
  case (Cons x xs)
  have "stdout (fst (ds_step x st)) \<noteq> None \<longrightarrow> installed (ds_step x st)"
    using Cons.prems by (intro ds_step_keeps) simp_all
  then show ?case using Cons.IH [of "ds_step x st"] Cons.prems(1) by simp
qed

lemma send_returns: "coerce_send_string s = Inr b \<Longrightarrow> \<exists>n. fst (send self s sink) = Inr n"
  using send_closed [of self s b sink] send_open [of self s b sink] by (cases "closed (p_fw self)") auto

lemma ds_write_installs:
  "\<not> is_empty_data d \<Longrightarrow> coerce_send_string d = Inr b \<Longrightarrow>
     sys_stdout (snd (snd (ds_write (self, w) d))) = Hijack (ds_id self)
     \<and> fst (snd (ds_write (self, w) d)) = self"
proof -
  assume e: "\<not> is_empty_data d" and c: "coerce_send_string d = Inr b"
  obtain n where "fst (send (w_proc w) d (w_sink w)) = Inr n"
    using send_returns [OF c] by blast
  then show ?thesis using e
    by (cases "send (w_proc w) d (w_sink w)") (simp add: ds_write_def pexpect_write_def)
qed

text \<open>
  C5, as the claim states it, fails in its last part: \<open>write\<close> makes the guard
  \<open>sys.stdout\<close> again whether or not the guard is inside its scope. After an entry, an
  exit and a write of \<open>x\<close>, the guard is redirecting and remembers no target, and its
  \<open>close\<close> will not take it out of \<open>sys.stdout\<close>.
\<close>

theorem hijack_guard_installed_without_target:
  "installed (ds_run [Enter, Exit, Write (Str [120])] (DuplicateStdout_init 7, world0))
   \<and> stdout (fst (ds_run [Enter, Exit, Write (Str [120])] (DuplicateStdout_init 7, world0))) = None
   \<and> installed (ds_close (ds_run [Enter, Exit, Write (Str [120])] (DuplicateStdout_init 7, world0)))"
proof -
  have c: "coerce_send_string (Str [120]) = Inr [120]"
    by (simp add: coerce_send_string_def scalar_def utf8_encode_def utf8_encode_cp_def)
  have e: "\<not> is_empty_data (Str [120])"
    by (simp add: is_empty_data_def)
  have b: "ds_exit (ds_enter (DuplicateStdout_init 7, world0)) = (DuplicateStdout_init 7, world0)"
    by (simp add: ds_exit_def ds_enter_def ds_close_def DuplicateStdout_init_def)
  let ?st = "snd (ds_write (DuplicateStdout_init 7, world0) (Str [120]))"
  have run: "ds_run [Enter, Exit, Write (Str [120])] (DuplicateStdout_init 7, world0) = ?st"
    by (simp add: b)
  have w: "sys_stdout (snd ?st) = Hijack 7" "fst ?st = DuplicateStdout_init 7"
    using ds_write_installs [OF e c, of "DuplicateStdout_init 7" world0]
    by (simp_all add: DuplicateStdout_init_def)
  show ?thesis
    unfolding run using w
    by (cases ?st) (simp add: installed_def ds_close_def DuplicateStdout_init_def)
qed

text \<open>
  C5, amended. Entering a guard that remembers no target makes the guard \<open>sys.stdout\<close>
  and remembers the target that \<open>sys.stdout\<close> held; entering again changes nothing, and
  what is remembered stays the target of the first entry whatever steps other than an exit
  come after it (writes, further entries, assignments to \<open>sys.stdout\<close> by other code).
  Leaving the scope, by \<open>__exit__\<close>, \<open>__del__\<close> or \<open>close\<close>, puts the remembered target
  back into \<open>sys.stdout\<close> and clears it, so that after entering twice one exit gives the
  state before the first entry; leaving a second time changes nothing. After any steps of
  a new guard among which no other code assigns \<open>sys.stdout\<close>, the field \<open>stdout\<close> is
  set only while the guard is redirecting, that is, while it is what \<open>sys.stdout\<close>
  holds.
\<close>

theorem hijack_guard_remembers_first_target:
  "(stdout self = None \<longrightarrow>
      ds_enter (self, w) =
        (self\<lparr>stdout := Some (sys_stdout w)\<rparr>, w\<lparr>sys_stdout := Hijack (ds_id self)\<rparr>)
      \<and> installed (ds_enter (self, w))
      \<and> ds_enter (ds_enter (self, w)) = ds_enter (self, w)
      \<and> stdout (fst (ds_enter (ds_enter (self, w)))) = Some (sys_stdout w)
      \<and> ds_exit (ds_enter (ds_enter (self, w))) = (self, w)
      \<and> ((\<forall>x\<in>set ops. \<not> closes x) \<longrightarrow>
           stdout (fst (ds_run (Enter # ops) (self, w))) = Some (sys_stdout w)
           \<and> sys_stdout (snd (ds_close (ds_run (Enter # ops) (self, w)))) = sys_stdout w))
   \<and> (stdout (fst st) = Some t \<longrightarrow>
        ds_close st = ((fst st)\<lparr>stdout := None\<rparr>, (snd st)\<lparr>sys_stdout := t\<rparr>))
   \<and> ds_exit st = ds_close st \<and> ds_del st = ds_close st
   \<and> stdout (fst (ds_close st)) = None
   \<and> ds_close (ds_close st) = ds_close st
   \<and> ((\<forall>x\<in>set ops'. \<not> assigns x)
        \<and> stdout (fst (ds_run ops' (DuplicateStdout_init i, w))) \<noteq> None
       \<longrightarrow> installed (ds_run ops' (DuplicateStdout_init i, w)))"
proof -
  have a: "ds_enter (self, w) =
        (self\<lparr>stdout := Some (sys_stdout w)\<rparr>, w\<lparr>sys_stdout := Hijack (ds_id self)\<rparr>)"
    "installed (ds_enter (self, w))"
    "ds_enter (ds_enter (self, w)) = ds_enter (self, w)"
    "stdout (fst (ds_enter (ds_enter (self, w)))) = Some (sys_stdout w)"
    "ds_exit (ds_enter (ds_enter (self, w))) = (self, w)"
    if "stdout self = None"
    using that by (simp_all add: ds_enter_def ds_exit_def ds_close_def installed_def)
  have b: "stdout (fst (ds_run (Enter # ops) (self, w))) = Some (sys_stdout w)"
    "sys_stdout (snd (ds_close (ds_run (Enter # ops) (self, w)))) = sys_stdout w"
    if n: "stdout self = None" and o: "\<forall>x\<in>set ops. \<not> closes x"
  proof -
    have "stdout (fst (ds_enter (self, w))) = Some (sys_stdout w)"
      using n by (simp add: ds_enter_def)
    then show r: "stdout (fst (ds_run (Enter # ops) (self, w))) = Some (sys_stdout w)"
      using o by (simp add: ds_run_remembers)
    show "sys_stdout (snd (ds_close (ds_run (Enter # ops) (self, w)))) = sys_stdout w"
      using r by (cases "ds_run (Enter # ops) (self, w)") (simp add: ds_close_def)
  qed
  have c: "ds_close st = ((fst st)\<lparr>stdout := None\<rparr>, (snd st)\<lparr>sys_stdout := t\<rparr>)"
    if "stdout (fst st) = Some t"
    using that by (cases st) (simp add: ds_close_def)
  have d: "installed (ds_run ops' (DuplicateStdout_init i, w))"
    if "\<forall>x\<in>set ops'. \<not> assigns x"
      "stdout (fst (ds_run ops' (DuplicateStdout_init i, w))) \<noteq> None"
    using ds_run_keeps [OF that(1), of "(DuplicateStdout_init i, w)"] that(2)
    by (simp add: DuplicateStdout_init_def)
  show ?thesis
    using a b c d by (simp add: ds_exit_def ds_del_def ds_close_clears ds_close_twice)
qed

theorem hijack_guard_remembers_first_target_witness:
  "stdout (DuplicateStdout_init 7) = None
   \<and> list_all (\<lambda>x. \<not> closes x) [Write (Str [120]), Enter, Assign (Stream 2), Flush]
   \<and> ds_enter (DuplicateStdout_init 7, world0) =
       (\<lparr> ds_id = 7, stdout = Some (Stream 1) \<rparr>, world0\<lparr>sys_stdout := Hijack 7\<rparr>)
   \<and> installed (ds_enter (DuplicateStdout_init 7, world0))
   \<and> ds_enter (ds_enter (DuplicateStdout_init 7, world0)) = ds_enter (DuplicateStdout_init 7, world0)
   \<and> ds_exit (ds_enter (ds_enter (DuplicateStdout_init 7, world0))) = (DuplicateStdout_init 7, world0)
   \<and> stdout (fst (ds_run [Enter, Write (Str [120]), Enter, Assign (Stream 2), Flush]
                      (DuplicateStdout_init 7, world0))) = Some (Stream 1)
   \<and> sys_stdout (snd (ds_close (ds_run [Enter, Write (Str [120]), Enter, Assign (Stream 2), Flush]
                                   (DuplicateStdout_init 7, world0)))) = Stream 1
   \<and> stdout (fst (ds_enter (DuplicateStdout_init 7, world0))) = Some (Stream 1)
   \<and> ds_close (ds_enter (DuplicateStdout_init 7, world0)) = (DuplicateStdout_init 7, world0)
   \<and> list_all (\<lambda>x. \<not> assigns x) [Enter, Write (Str [120]), Enter, Flush]
   \<and> stdout (fst (ds_run [Enter, Write (Str [120]), Enter, Flush] (DuplicateStdout_init 7, world0)))
       = Some (Stream 1)
   \<and> installed (ds_run [Enter, Write (Str [120]), Enter, Flush] (DuplicateStdout_init 7, world0))"
proof -
  have a: "stdout (DuplicateStdout_init 7) = None"
    by (simp add: DuplicateStdout_init_def)
  have b: "\<forall>x\<in>set [Write (Str [120]), Enter, Assign (Stream 2), Flush]. \<not> closes x"
    "\<forall>x\<in>set [Write (Str [120]), Enter, Flush]. \<not> closes x"
    "\<forall>x\<in>set [Enter, Write (Str [120]), Enter, Flush]. \<not> assigns x"
    by simp_all
  have c: "sys_stdout world0 = Stream 1"
    by (simp add: world0_def)
  note t1 = hijack_guard_remembers_first_target
        [of "DuplicateStdout_init 7" world0 "[Write (Str [120]), Enter, Assign (Stream 2), Flush]"
            "ds_enter (DuplicateStdout_init 7, world0)" "Stream 1" "[]" 7]
  note t2 = hijack_guard_remembers_first_target
        [of "DuplicateStdout_init 7" world0 "[Write (Str [120]), Enter, Flush]"
            "ds_enter (DuplicateStdout_init 7, world0)" "Stream 1"
            "[Enter, Write (Str [120]), Enter, Flush]" 7]
  have r1: "stdout (fst (ds_run [Enter, Write (Str [120]), Enter, Assign (Stream 2), Flush]
                      (DuplicateStdout_init 7, world0))) = Some (Stream 1)"
    "sys_stdout (snd (ds_close (ds_run [Enter, Write (Str [120]), Enter, Assign (Stream 2), Flush]
                                   (DuplicateStdout_init 7, world0)))) = Stream 1"
    using t1 a b(1) c by metis+
  have r2: "stdout (fst (ds_run [Enter, Write (Str [120]), Enter, Flush] (DuplicateStdout_init 7, world0)))
       = Some (Stream 1)"
    using t2 a b(2) c by metis
  have r3: "installed (ds_run [Enter, Write (Str [120]), Enter, Flush] (DuplicateStdout_init 7, world0))"
    using t2 b(3) r2 by (metis option.distinct(1))
  have e0: "ds_enter (DuplicateStdout_init 7, world0) =
       ((DuplicateStdout_init 7)\<lparr>stdout := Some (sys_stdout world0)\<rparr>,
        world0\<lparr>sys_stdout := Hijack (ds_id (DuplicateStdout_init 7))\<rparr>)"
    and e: "installed (ds_enter (DuplicateStdout_init 7, world0))"
    "ds_enter (ds_enter (DuplicateStdout_init 7, world0)) = ds_enter (DuplicateStdout_init 7, world0)"
    "ds_exit (ds_enter (ds_enter (DuplicateStdout_init 7, world0))) = (DuplicateStdout_init 7, world0)"
    using t1 a by blast+
  have e1: "ds_enter (DuplicateStdout_init 7, world0) =
       (\<lparr> ds_id = 7, stdout = Some (Stream 1) \<rparr>, world0\<lparr>sys_stdout := Hijack 7\<rparr>)"
    using e0 by (simp add: DuplicateStdout_init_def c)
  have f: "stdout (fst (ds_enter (DuplicateStdout_init 7, world0))) = Some (Stream 1)"
    using e1 by simp
  have g0: "ds_close (ds_enter (DuplicateStdout_init 7, world0)) =
       ((fst (ds_enter (DuplicateStdout_init 7, world0)))\<lparr>stdout := None\<rparr>,
        (snd (ds_enter (DuplicateStdout_init 7, world0)))\<lparr>sys_stdout := Stream 1\<rparr>)"
    using t1 f by blast
  have g: "ds_close (ds_enter (DuplicateStdout_init 7, world0)) = (DuplicateStdout_init 7, world0)"
    using g0 unfolding e1 by (simp add: DuplicateStdout_init_def world0_def)
  show ?thesis
    using a r1 r2 r3 e e1 f g by simp
qed

section \<open>DuplicateStdoutMixin and DuplicateStdoutPopen: the thread and the child's input\<close>

lemma create_forward_io_thread_again:
  "forward_io_thread self \<noteq> None \<Longrightarrow> create_forward_io_thread (self, started) p = (self, started)"
  by (cases "forward_io_thread self") (simp_all add: create_forward_io_thread_def)

lemma create_calls_again:
  "forward_io_thread self \<noteq> None \<Longrightarrow> create_calls ps (self, started) = (self, started)"
  by (induction ps) (simp_all add: create_forward_io_thread_again)

lemma create_forward_io_thread_first:
  "forward_io_thread self = None \<Longrightarrow>
     create_forward_io_thread (self, started) p =
       (self\<lparr>forward_io_thread := Some \<lparr> th_target = m_id self, th_args = p, th_daemon = True \<rparr>\<rparr>,
        started @ [\<lparr> th_target = m_id self, th_args = p, th_daemon = True \<rparr>])"
  by (simp add: create_forward_io_thread_def Let_def)

text \<open>
  C6. On a producer that has no forwarding thread yet, the first
  \<open>create_forward_io_thread\<close> creates one thread, a daemon whose target is the
  producer's own \<open>_forward_io\<close> with the stream as its argument, keeps it in
  \<open>_forward_io_thread\<close> and starts it; every further call, with whatever stream, changes
  nothing, so that after any number of calls the producer has started exactly one thread.
  The \<open>_forward_io\<close> that the mixin itself defines raises \<open>NotImplementedError\<close>.
\<close>

theorem create_forward_io_thread_once:
  "(forward_io_thread self = None \<longrightarrow>
      create_calls (p # ps) (self, started) =
        (self\<lparr>forward_io_thread := Some \<lparr> th_target = m_id self, th_args = p, th_daemon = True \<rparr>\<rparr>,
         started @ [\<lparr> th_target = m_id self, th_args = p, th_daemon = True \<rparr>])
      \<and> length (snd (create_calls (p # ps) (self, started))) = Suc (length started))
   \<and> create_forward_io_thread (create_forward_io_thread (self, started) p) q
       = create_forward_io_thread (self, started) p
   \<and> DuplicateStdoutMixin_forward_io self p = Inl NotImplementedError"
proof -
  have a: "create_calls (p # ps) (self, started) =
        (self\<lparr>forward_io_thread := Some \<lparr> th_target = m_id self, th_args = p, th_daemon = True \<rparr>\<rparr>,
         started @ [\<lparr> th_target = m_id self, th_args = p, th_daemon = True \<rparr>])"
    if "forward_io_thread self = None"
    using that by (simp add: create_forward_io_thread_first create_calls_again)
  have b: "create_forward_io_thread (create_forward_io_thread (self, started) p) q
       = create_forward_io_thread (self, started) p"
  proof (cases "forward_io_thread self")
    case None
    then show ?thesis by (simp add: create_forward_io_thread_first create_forward_io_thread_again)
  next
    case (Some t)
    then show ?thesis by (simp add: create_forward_io_thread_again)
  qed
  show ?thesis using a b by (simp add: DuplicateStdoutMixin_forward_io_def)
qed

theorem create_forward_io_thread_once_witness:
  "forward_io_thread (DuplicateStdoutMixin_init 5) = None
   \<and> create_calls [1, 2, 1] (DuplicateStdoutMixin_init 5, []) =
       (\<lparr> m_id = 5, forward_io_thread = Some \<lparr> th_target = 5, th_args = 1, th_daemon = True \<rparr> \<rparr>,
        [\<lparr> th_target = 5, th_args = 1, th_daemon = True \<rparr>])
   \<and> DuplicateStdoutMixin_forward_io (DuplicateStdoutMixin_init 5) 1 = Inl NotImplementedError"
proof -
  have a: "forward_io_thread (DuplicateStdoutMixin_init 5) = None"
    by (simp add: DuplicateStdoutMixin_init_def)
  show ?thesis
    using a create_forward_io_thread_once [of "DuplicateStdoutMixin_init 5" 1 "[2, 1]" "[]" 2]
    by (simp add: DuplicateStdoutMixin_init_def del: create_calls.simps)
qed

text \<open>
  C7. \<open>DuplicateStdoutPopen.send\<close> writes to the child's standard input the UTF-8
  encoding of a text followed by a line feed, and binary data as it is, with nothing
  added.
\<close>

theorem popen_send_text_newline_binary_unmodified:
  "popen_stdin (popen_send self (Str t)) = popen_stdin self @ utf8_encode t @ [10]
   \<and> popen_stdin (popen_send self (Bin b)) = popen_stdin self @ b
   \<and> popen_stdin (popen_send \<lparr> popen_mixin = DuplicateStdoutMixin_init 0, popen_stdin = [] \<rparr>
                     (Str [104, 233])) = [104, 195, 169, 10]
   \<and> popen_stdin (popen_send \<lparr> popen_mixin = DuplicateStdoutMixin_init 0, popen_stdin = [] \<rparr>
                     (Bin [97, 98, 99])) = [97, 98, 99]"
  by (simp add: popen_send_def to_bytes_def utf8_encode_def utf8_encode_cp_def)

end
